theory Spec2Isabelle
  imports Main "HOL-Library.Sublist" "HOL-Library.List_Lexorder" "HOL-Library.Word"
begin

section \<open>Python strings and bytes\<close>

text \<open>
  A Python \<open>str\<close> is modelled as a \<^typ>\<open>string\<close> and \<open>bytes\<close> as a list of 8-bit words.
  Bundle names, build identifiers and error messages are ASCII, and \<open>str.lower\<close> is
  modelled on the ASCII letters.
\<close>

type_synonym bytes = "8 word list"

definition lower_char :: "char \<Rightarrow> char" where
  "lower_char c =
     (case map_of (zip ''ABCDEFGHIJKLMNOPQRSTUVWXYZ'' ''abcdefghijklmnopqrstuvwxyz'') c of
        Some l \<Rightarrow> l
      | None \<Rightarrow> c)"

definition str_lower :: "string \<Rightarrow> string" where
  "str_lower s = map lower_char s"

definition endswith :: "string \<Rightarrow> string \<Rightarrow> bool" where
  "endswith s suf = suffix suf s"

text \<open>\<open>sub in s\<close> on strings: \<open>sub\<close> occurs in \<open>s\<close> as a contiguous block.\<close>

fun str_in :: "string \<Rightarrow> string \<Rightarrow> bool" where
  "str_in sub [] = (sub = [])"
| "str_in sub (c # cs) = (prefix sub (c # cs) \<or> str_in sub cs)"

text \<open>\<open>s.split(sep)\<close> for a one-character separator; the result is never empty.\<close>

fun str_split :: "char \<Rightarrow> string \<Rightarrow> string list" where
  "str_split sep [] = [[]]"
| "str_split sep (c # cs) =
     (if c = sep then [] # str_split sep cs
      else (case str_split sep cs of
              [] \<Rightarrow> [[c]]
            | piece # pieces \<Rightarrow> (c # piece) # pieces))"

text \<open>\<open>s.split(sep)[0]\<close>.\<close>

definition split_first :: "char \<Rightarrow> string \<Rightarrow> string" where
  "split_first sep s = (case str_split sep s of [] \<Rightarrow> [] | piece # _ \<Rightarrow> piece)"

section \<open>Versions\<close>

text \<open>
  \<open>packaging.version.Version\<close> for the versions a device reports: a release tuple of
  numbers. Two versions are compared through their keys, the release tuple without its
  trailing zeros, in the lexicographic order of tuples.
\<close>

datatype Version = Version (release: "nat list")

definition cmpkey :: "Version \<Rightarrow> nat list" where
  "cmpkey v = rev (dropWhile (\<lambda>n. n = 0) (rev (release v)))"

definition version_lt :: "Version \<Rightarrow> Version \<Rightarrow> bool" where
  "version_lt a b = (cmpkey a < cmpkey b)"

definition version_le :: "Version \<Rightarrow> Version \<Rightarrow> bool" where
  "version_le a b = (cmpkey a \<le> cmpkey b)"

definition version_gt :: "Version \<Rightarrow> Version \<Rightarrow> bool" where
  "version_gt a b = (cmpkey a > cmpkey b)"

definition version_eq :: "Version \<Rightarrow> Version \<Rightarrow> bool" where
  "version_eq a b = (cmpkey a = cmpkey b)"

definition v15_0 :: Version where "v15_0 = Version [15, 0]"
definition v16_7 :: Version where "v16_7 = Version [16, 7]"
definition v17_0 :: Version where "v17_0 = Version [17, 0]"

text \<open>The condition of lines 49-55 of \<open>cli\<close>: the device is refused when it holds.\<close>

definition unsupported :: "Version \<Rightarrow> string \<Rightarrow> bool" where
  "unsupported device_version device_build =
     (version_lt device_version v15_0
      \<or> version_gt device_version v17_0
      \<or> (version_lt v16_7 device_version \<and> version_lt device_version v17_0)
      \<or> (version_eq device_version v16_7 \<and> device_build \<noteq> ''20H18''))"

section \<open>Paths\<close>

text \<open>
  \<open>pathlib.Path\<close> on a POSIX host: a path is its root (empty, one slash or two slashes)
  and the list of its components; empty components and \<open>.\<close> are dropped when the path is
  parsed, \<open>..\<close> is kept.
\<close>

datatype PurePath = PurePath (anchor: string) (tail: "string list")

definition splitroot :: "string \<Rightarrow> string \<times> string" where
  "splitroot p =
     (if take 1 p \<noteq> ''/'' then ('''', p)
      else if take 1 (drop 1 p) \<noteq> ''/'' \<or> take 1 (drop 2 p) = ''/'' then (''/'', drop 1 p)
      else (''//'', drop 2 p))"

definition Path :: "string \<Rightarrow> PurePath" where
  "Path p =
     (case splitroot p of
        (r, rel) \<Rightarrow> PurePath r (filter (\<lambda>x. x \<noteq> [] \<and> x \<noteq> ''.'') (str_split CHR ''/'' rel)))"

definition name :: "PurePath \<Rightarrow> string" where
  "name p = (if tail p = [] then [] else last (tail p))"

definition parent :: "PurePath \<Rightarrow> PurePath" where
  "parent p = (if tail p = [] then p else PurePath (anchor p) (butlast (tail p)))"

definition parents :: "PurePath \<Rightarrow> PurePath list" where
  "parents p = map (\<lambda>k. PurePath (anchor p) (take k (tail p))) (rev [0..<length (tail p)])"

definition bundle_root :: PurePath where
  "bundle_root = Path ''/private/var/containers/Bundle/Application''"

section \<open>Backup entries\<close>

text \<open>
  Modelled from the spec: the classes \<open>Directory\<close>, \<open>ConcreteFile\<close> and \<open>Backup\<close> of the
  package \<open>sparserestore.backup\<close> are not among the sources. An entry has a relative path, a
  domain, optional owner and group, and a file has contents and an optional inode hint; a
  keyword that a call does not pass is \<open>None\<close>.
\<close>

datatype entry =
    Directory (path: string) (domain: string) (owner: "nat option") (group: "nat option")
  | ConcreteFile (path: string) (domain: string) (owner: "nat option") (group: "nat option")
      (contents: bytes) (inode: "nat option")

datatype Backup = Backup (files: "entry list")

text \<open>Lines 102-131 of \<open>cli\<close>.\<close>

definition build_backup :: "bytes \<Rightarrow> string \<Rightarrow> string \<Rightarrow> Backup" where
  "build_backup helper_contents app app_uuid =
     Backup
      [Directory '''' ''RootDomain'' None None,
       Directory ''Library'' ''RootDomain'' None None,
       Directory ''Library/Preferences'' ''RootDomain'' None None,
       ConcreteFile ''Library/Preferences/temp'' ''RootDomain'' (Some 33) (Some 33)
         helper_contents (Some 0),
       Directory ''''
         (''SysContainerDomain-../../../../../../../../var/backup/var/containers/Bundle/Application/''
            @ app_uuid @ ''/'' @ app)
         (Some 33) (Some 33),
       ConcreteFile ''''
         (''SysContainerDomain-../../../../../../../../var/backup/var/containers/Bundle/Application/''
            @ app_uuid @ ''/'' @ app @ ''/'' @ split_first CHR ''.'' app)
         (Some 33) (Some 33) [] (Some 0),
       ConcreteFile ''''
         ''SysContainerDomain-../../../../../../../../var/.backup.i/var/root/Library/Preferences/temp''
         (Some 501) (Some 501) [] None,
       ConcreteFile '''' (''SysContainerDomain-../../../../../../../..'' @ ''/crash_on_purpose'')
         None None [] None]"

section \<open>Resolving the application\<close>

text \<open>
  A value of the registry returned by \<open>get_apps\<close>: a dictionary from keys to strings, or
  something else. The registry is an association list in the iteration order of the
  dictionary.
\<close>

datatype app_value = Dict "(string \<times> string) list" | NotDict

type_synonym registry = "(string \<times> app_value) list"

text \<open>Lines 69-70.\<close>

definition normalize_app :: "string \<Rightarrow> string" where
  "normalize_app app = (if \<not> endswith app ''.app'' then app @ ''.app'' else app)"

text \<open>The loop of lines 75-80 on the pair of variables \<open>(app_path, app)\<close>.\<close>

fun scan_apps :: "registry \<Rightarrow> PurePath option \<times> string \<Rightarrow> PurePath option \<times> string" where
  "scan_apps [] st = st"
| "scan_apps ((key, val) # rest) (app_path, app) =
     (case val of
        NotDict \<Rightarrow> scan_apps rest (app_path, app)
      | Dict d \<Rightarrow>
          (case map_of d ''Path'' of
             None \<Rightarrow> scan_apps rest (app_path, app)
           | Some p \<Rightarrow>
               (let potential_path = Path p in
                if str_lower (name potential_path) = str_lower app
                then scan_apps rest (Some potential_path, name potential_path)
                else scan_apps rest (app_path, app))))"

datatype resolve_error = AppNotFound string | AppNotRemovable string

text \<open>
  Lines 69-91: the normalised name, the scan, the two failures, and on success the bundle
  name, the UUID and the bundle path.
\<close>

definition resolve_app :: "string \<Rightarrow> registry \<Rightarrow> resolve_error + (string \<times> string \<times> PurePath)" where
  "resolve_app app0 apps_json =
     (case scan_apps apps_json (None, normalize_app app0) of
        (None, app) \<Rightarrow> Inl (AppNotFound app)
      | (Some app_path, app) \<Rightarrow>
          if bundle_root \<notin> set (parents app_path) then Inl (AppNotRemovable app)
          else Inr (app, name (parent app_path), app_path))"

section \<open>Exceptions and the outcome of a restore\<close>

text \<open>
  The exception classes the handlers tell apart. \<open>NoDeviceConnectedError\<close> is a subclass of
  \<open>PyMobileDevice3Exception\<close>; \<open>PyMobileDevice3Exception\<close> stands for the other members of
  that family, \<open>UsageError\<close> for click's usage error and \<open>OtherException\<close> for every other
  subclass of \<open>Exception\<close>. \<open>message\<close> is \<open>str(e)\<close>.
\<close>

datatype exc_class = NoDeviceConnectedError | PyMobileDevice3Exception | UsageError | OtherException

datatype exception = Exception (cls: exc_class) (message: string)

definition is_PyMobileDevice3Exception :: "exception \<Rightarrow> bool" where
  "is_PyMobileDevice3Exception e = (cls e = PyMobileDevice3Exception \<or> cls e = NoDeviceConnectedError)"

datatype restore_outcome = RestoreReturned | FindMyBlocked | ExpectedOutcome | FatalOutcome exception

text \<open>
  Lines 133-141: what the \<open>try\<close> statement around \<open>perform_restore\<close> does with the
  exception the call raised, if any.
\<close>

definition classify :: "exception option \<Rightarrow> restore_outcome" where
  "classify raised =
     (case raised of
        None \<Rightarrow> RestoreReturned
      | Some e \<Rightarrow>
          if is_PyMobileDevice3Exception e then
            (if str_in ''Find My'' (message e) then FindMyBlocked
             else if \<not> str_in ''crash_on_purpose'' (message e) then FatalOutcome e
             else ExpectedOutcome)
          else FatalOutcome e)"

section \<open>The workflow\<close>

text \<open>
  The messages \<open>cli\<close> and \<open>main\<close> print, one constructor for each call of \<open>click.secho\<close>
  or \<open>click.echo\<close>, with the values the message interpolates.
\<close>

datatype message =
    DeviceInfoUnavailable | ReconnectAndRetry
  | UnsupportedVersion string Version string | SupportedRange
  | AppNotFoundMsg string | CheckAppName string
  | AppNotRemovableMsg string | ChooseRemovableApp
  | PayloadUnavailable string
  | Replacing string string
  | FindMyMustBeDisabled | DisableFindMyAndRetry
  | Rebooting
  | ReenableFindMy | InstallPersistenceHelper
  | ConnectDevice
  | UsageMessage string | Help
  | ErrorOccurred | Traceback exception

datatype event =
    Secho message
  | Prompt
  | GetApps
  | HttpGet
  | PerformRestore Backup bool
  | Restart

datatype control = Return | SysExit int | Raise exception

text \<open>
  What the collaborators answer in one run: an exception raised before the body of \<open>cli\<close>
  runs (parsing the command line, connecting to the device), the values of the device, the
  \<open>--app\<close> option and the answer to the prompt, the registry, the result of the download
  (the text of the exception or the contents), and the exceptions raised by the restore and
  by the restart.
\<close>

record world =
  startup_error :: "exception option"
  DeviceClass :: "string option"
  BuildVersion :: "string option"
  product_version :: Version
  app_option :: "string option"
  prompt_answer :: string
  apps_json :: registry
  download :: "string + bytes"
  restore_error :: "exception option"
  restart_error :: "exception option"

definition os_names :: "(string \<times> string) list" where
  "os_names =
     [(''iPhone'', ''iOS''), (''iPad'', ''iPadOS''), (''iPod'', ''iOS''), (''AppleTV'', ''tvOS''),
      (''Watch'', ''watchOS''), (''AudioAccessory'', ''HomePod Software Version''),
      (''RealityDevice'', ''visionOS'')]"

definition os_name_of :: "string \<Rightarrow> string" where
  "os_name_of device_class =
     (case map_of os_names device_class of Some n \<Rightarrow> n @ '' '' | None \<Rightarrow> [])"

text \<open>Lines 143-149.\<close>

definition reboot :: "world \<Rightarrow> event list \<times> control" where
  "reboot w =
     (case restart_error w of
        Some e \<Rightarrow> ([Secho Rebooting, Restart], Raise e)
      | None \<Rightarrow>
          ([Secho Rebooting, Restart, Secho ReenableFindMy, Secho InstallPersistenceHelper],
           Return))"

definition after :: "event list \<Rightarrow> event list \<times> control \<Rightarrow> event list \<times> control" where
  "after evs r = (evs @ fst r, snd r)"

text \<open>Lines 133-149.\<close>

definition submit :: "world \<Rightarrow> Backup \<Rightarrow> event list \<times> control" where
  "submit w back =
     after [PerformRestore back False]
       (case classify (restore_error w) of
          FindMyBlocked \<Rightarrow> ([Secho FindMyMustBeDisabled, Secho DisableFindMyAndRetry], SysExit 1)
        | FatalOutcome e \<Rightarrow> ([], Raise e)
        | ExpectedOutcome \<Rightarrow> reboot w
        | RestoreReturned \<Rightarrow> reboot w)"

text \<open>Lines 93-149.\<close>

definition fetch_and_restore :: "world \<Rightarrow> string \<Rightarrow> string \<Rightarrow> event list \<times> control" where
  "fetch_and_restore w app app_uuid =
     after [HttpGet]
       (case download w of
          Inl e \<Rightarrow> ([Secho (PayloadUnavailable e)], Return)
        | Inr helper_contents \<Rightarrow>
            after [Secho (Replacing app app_uuid)]
              (submit w (build_backup helper_contents app app_uuid)))"

text \<open>Lines 60-67: the name given by the option, or asked for when it is absent or empty.\<close>

definition ask_app :: "world \<Rightarrow> event list \<times> string" where
  "ask_app w =
     (case app_option w of
        None \<Rightarrow> ([Prompt], prompt_answer w)
      | Some a \<Rightarrow> if a = [] then ([Prompt], prompt_answer w) else ([], a))"

text \<open>Lines 60-149.\<close>

definition resolve_and_restore :: "world \<Rightarrow> event list \<times> control" where
  "resolve_and_restore w =
     after (fst (ask_app w) @ [GetApps])
       (case resolve_app (snd (ask_app w)) (apps_json w) of
          Inl (AppNotFound app) \<Rightarrow> ([Secho (AppNotFoundMsg app), Secho (CheckAppName app)], Return)
        | Inl (AppNotRemovable app) \<Rightarrow>
            ([Secho (AppNotRemovableMsg app), Secho ChooseRemovableApp], Return)
        | Inr (app, app_uuid, app_path) \<Rightarrow> fetch_and_restore w app app_uuid)"

definition no_device_info :: "event list \<times> control" where
  "no_device_info = ([Secho DeviceInfoUnavailable, Secho ReconnectAndRetry], Return)"

text \<open>The body of \<open>cli\<close>, lines 39-149.\<close>

definition cli :: "world \<Rightarrow> event list \<times> control" where
  "cli w =
     (case DeviceClass w of
        None \<Rightarrow> no_device_info
      | Some device_class \<Rightarrow>
          (case BuildVersion w of
             None \<Rightarrow> no_device_info
           | Some device_build \<Rightarrow>
               if device_class = [] \<or> device_build = [] then no_device_info
               else if unsupported (product_version w) device_build then
                 ([Secho (UnsupportedVersion (os_name_of device_class) (product_version w)
                            device_build),
                   Secho SupportedRange], Return)
               else resolve_and_restore w))"

text \<open>The handlers of \<open>main\<close>, lines 155-165, in their order.\<close>

definition handle_exception :: "exception \<Rightarrow> event list \<times> int" where
  "handle_exception e =
     (if cls e = NoDeviceConnectedError then ([Secho ConnectDevice], 1)
      else if cls e = UsageError then ([Secho (UsageMessage (message e)), Secho Help], 2)
      else ([Secho ErrorOccurred, Secho (Traceback e)], 1))"

text \<open>\<open>main\<close>, lines 152-167: the events of the run and the exit code of the process.\<close>

definition main :: "world \<Rightarrow> event list \<times> int" where
  "main w =
     (case startup_error w of
        Some e \<Rightarrow> handle_exception e
      | None \<Rightarrow>
          (case cli w of
             (evs, Return) \<Rightarrow> (evs, 0)
           | (evs, SysExit code) \<Rightarrow> (evs, code)
           | (evs, Raise e) \<Rightarrow> (evs @ fst (handle_exception e), snd (handle_exception e))))"

section \<open>Notions of the specification\<close>

text \<open>
  The eligibility gate in the words of the specification: the version lies between 15.0
  and 17.0, not strictly between 16.7 and 17.0, and a device on 16.7 carries the build of
  the release candidate.
\<close>

definition eligible_spec :: "Version \<Rightarrow> string \<Rightarrow> bool" where
  "eligible_spec v b =
     (version_le v15_0 v \<and> version_le v v17_0
      \<and> \<not> (version_lt v16_7 v \<and> version_lt v v17_0)
      \<and> (\<not> version_eq v v16_7 \<or> b = ''20H18''))"

section \<open>Example runs\<close>

definition tips_registry :: registry where
  "tips_registry =
     [(''com.apple.tips'',
       Dict [(''Path'', ''/private/var/containers/Bundle/Application/ABCD-1234/Tips.app'')])]"

text \<open>An iPhone on 16.6 with the Tips application, on which every collaborator answers.\<close>

definition w_ok :: world where
  "w_ok =
     \<lparr>startup_error = None, DeviceClass = Some ''iPhone'', BuildVersion = Some ''20G75'',
      product_version = Version [16, 6], app_option = Some ''Tips'', prompt_answer = [],
      apps_json = tips_registry, download = Inr [1, 2, 3],
      restore_error = Some (Exception PyMobileDevice3Exception ''crash_on_purpose''),
      restart_error = None\<rparr>"

text \<open>The same device on 17.0.1.\<close>

definition w_unsupported :: world where
  "w_unsupported = w_ok\<lparr>BuildVersion := Some ''21A340'', product_version := Version [17, 0, 1]\<rparr>"

text \<open>The same run with an error of the restore family that carries both markers.\<close>

definition w_both_markers :: world where
  "w_both_markers =
     w_ok\<lparr>restore_error := Some (Exception PyMobileDevice3Exception ''Find My crash_on_purpose'')\<rparr>"

text \<open>The same run with an exception outside the restore family, with one and both markers.\<close>

definition w_foreign :: world where
  "w_foreign = w_ok\<lparr>restore_error := Some (Exception OtherException ''crash_on_purpose'')\<rparr>"

definition w_foreign_both :: world where
  "w_foreign_both =
     w_ok\<lparr>restore_error := Some (Exception OtherException ''Find My crash_on_purpose'')\<rparr>"

definition tips_backup :: Backup where
  "tips_backup = build_backup [1, 2, 3] ''Tips.app'' ''ABCD-1234''"

section \<open>Auxiliary notions\<close>

text \<open>Events that neither submit a restore nor restart the device.\<close>

definition quiet :: "event list \<Rightarrow> bool" where
  "quiet evs = (Restart \<notin> set evs \<and> (\<forall>b r. PerformRestore b r \<notin> set evs))"

section \<open>Notions of the resolver\<close>

text \<open>
  The path an entry of the registry carries, the paths whose last component is the
  requested name up to case, in the order of the registry, and the paths that lie below the
  root of the removable bundles.
\<close>

definition carried_path :: "string \<times> app_value \<Rightarrow> PurePath option" where
  "carried_path kv =
     (case snd kv of
        Dict d \<Rightarrow> (case map_of d ''Path'' of None \<Rightarrow> None | Some p \<Rightarrow> Some (Path p))
      | NotDict \<Rightarrow> None)"

definition matches :: "string \<Rightarrow> PurePath \<Rightarrow> bool" where
  "matches app p = (str_lower (name p) = str_lower app)"

definition matching :: "string \<Rightarrow> registry \<Rightarrow> PurePath list" where
  "matching app reg = filter (matches app) (List.map_filter carried_path reg)"

definition under_bundle_root :: "PurePath \<Rightarrow> bool" where
  "under_bundle_root p =
     (anchor p = ''/''
      \<and> strict_prefix [''private'', ''var'', ''containers'', ''Bundle'', ''Application''] (tail p))"

text \<open>Registries: two applications called Tips, and a built-in application.\<close>

definition two_tips_registry :: registry where
  "two_tips_registry =
     [(''com.apple.tips'',
       Dict [(''Path'', ''/private/var/containers/Bundle/Application/AAAA-1111/Tips.app'')]),
      (''com.example.tips'',
       Dict [(''Path'', ''/private/var/containers/Bundle/Application/BBBB-2222/tips.app'')])]"

definition builtin_registry :: registry where
  "builtin_registry =
     [(''com.apple.mobilesafari'', Dict [(''Path'', ''/Applications/MobileSafari.app'')]),
      (''com.apple.springboard'', NotDict),
      (''com.apple.placeholder'', Dict [(''CFBundleName'', ''MobileSafari.app'')])]"

definition tips_path :: string where
  "tips_path = ''/private/var/containers/Bundle/Application/ABCD-1234/Tips.app''"

section \<open>Notions of the manifest\<close>

text \<open>
  The prefix of a traversal domain with a given number of steps upwards, the traversal
  domain of the application, and the location an entry is written to: its domain,
  followed by its relative path when it has one.
\<close>

definition traversal :: "nat \<Rightarrow> string" where
  "traversal n = ''SysContainerDomain-'' @ concat (replicate n ''../'')"

definition app_domain :: "string \<Rightarrow> string \<Rightarrow> string" where
  "app_domain app_uuid app =
     traversal 8 @ ''var/backup/'' @ ''var/containers/Bundle/Application/'' @ app_uuid @ ''/'' @ app"

definition is_directory :: "entry \<Rightarrow> bool" where
  "is_directory e = (case e of Directory _ _ _ _ \<Rightarrow> True | ConcreteFile _ _ _ _ _ _ \<Rightarrow> False)"

definition target :: "entry \<Rightarrow> string" where
  "target e = (if path e = [] then domain e else domain e @ ''/'' @ path e)"

section \<open>The eligibility gate\<close>

lemmas version_defs =
  version_le_def version_lt_def version_gt_def version_eq_def cmpkey_def
  v15_0_def v16_7_def v17_0_def

lemma unsupported_iff: "unsupported v b \<longleftrightarrow> \<not> eligible_spec v b"
  by (auto simp: unsupported_def eligible_spec_def version_lt_def version_le_def
      version_gt_def version_eq_def)

text \<open>
  C1. The gate accepts a version and a build exactly when the version is between 15.0 and
  17.0, is not strictly between 16.7 and 17.0, and is not 16.7 unless the build is
  \<open>20H18\<close>. On a device that reports its class and build, an accepted pair lets \<open>cli\<close> go
  on to resolve the application (it lists the installed applications and prints no message
  of an unsupported version), and every other pair makes \<open>cli\<close> print the message of an
  unsupported version and return, with no later step of the workflow taken. The versions
  15.0, 16.6 and 17.0 are accepted with any build and 16.7 with the build \<open>20H18\<close>; 14.8
  and 17.0.1 are refused with any build, and 16.7 with any other build.
\<close>

theorem eligibility_gate:
  "(\<not> unsupported v b \<longleftrightarrow> eligible_spec v b)
   \<and> (DeviceClass w = Some c \<and> c \<noteq> [] \<and> BuildVersion w = Some b \<and> b \<noteq> []
        \<and> eligible_spec (product_version w) b \<longrightarrow>
      cli w = resolve_and_restore w \<and> GetApps \<in> set (fst (cli w))
      \<and> (\<forall>x y z. Secho (UnsupportedVersion x y z) \<notin> set (fst (cli w))))
   \<and> (DeviceClass w = Some c \<and> c \<noteq> [] \<and> BuildVersion w = Some b \<and> b \<noteq> []
        \<and> \<not> eligible_spec (product_version w) b \<longrightarrow>
      cli w =
        ([Secho (UnsupportedVersion (os_name_of c) (product_version w) b), Secho SupportedRange],
         Return))
   \<and> \<not> unsupported (Version [15, 0]) b \<and> \<not> unsupported (Version [16, 6]) b
   \<and> \<not> unsupported (Version [17, 0]) b \<and> \<not> unsupported (Version [16, 7]) ''20H18''
   \<and> unsupported (Version [14, 8]) b \<and> unsupported (Version [17, 0, 1]) b
   \<and> (b \<noteq> ''20H18'' \<longrightarrow> unsupported (Version [16, 7]) b)"
proof -
  have accept: "cli w = resolve_and_restore w \<and> GetApps \<in> set (fst (cli w))
      \<and> (\<forall>x y z. Secho (UnsupportedVersion x y z) \<notin> set (fst (cli w)))"
    if "DeviceClass w = Some c" "c \<noteq> []" "BuildVersion w = Some b" "b \<noteq> []"
      "eligible_spec (product_version w) b"
  proof -
    have c: "cli w = resolve_and_restore w"
      using that unsupported_iff [of "product_version w" b] by (simp add: cli_def)
    have g: "GetApps \<in> set (fst (resolve_and_restore w))"
      by (simp add: resolve_and_restore_def after_def)
    have n: "Secho (UnsupportedVersion x y z) \<notin> set (fst (resolve_and_restore w))" for x y z
      by (auto simp: resolve_and_restore_def fetch_and_restore_def submit_def reboot_def
          ask_app_def after_def
          split: sum.splits resolve_error.splits restore_outcome.splits option.splits
            if_splits)
    from c g n show ?thesis by simp
  qed
  have refuse: "cli w =
        ([Secho (UnsupportedVersion (os_name_of c) (product_version w) b), Secho SupportedRange],
         Return)"
    if "DeviceClass w = Some c" "c \<noteq> []" "BuildVersion w = Some b" "b \<noteq> []"
      "\<not> eligible_spec (product_version w) b"
    using that unsupported_iff [of "product_version w" b] by (simp add: cli_def)
  have anchors: "\<not> unsupported (Version [15, 0]) b" "\<not> unsupported (Version [16, 6]) b"
    "\<not> unsupported (Version [17, 0]) b" "\<not> unsupported (Version [16, 7]) ''20H18''"
    "unsupported (Version [14, 8]) b" "unsupported (Version [17, 0, 1]) b"
    "b \<noteq> ''20H18'' \<longrightarrow> unsupported (Version [16, 7]) b"
    by (simp_all add: unsupported_def version_defs)
  from unsupported_iff [of v b] accept refuse anchors show ?thesis by blast
qed

theorem eligibility_gate_witness:
  "DeviceClass w_unsupported = Some ''iPhone'' \<and> BuildVersion w_unsupported = Some ''21A340''
   \<and> \<not> eligible_spec (product_version w_unsupported) ''21A340''
   \<and> unsupported (Version [17, 0, 1]) ''21A340''
   \<and> cli w_unsupported =
       ([Secho (UnsupportedVersion (os_name_of ''iPhone'') (product_version w_unsupported)
           ''21A340''),
         Secho SupportedRange], Return)
   \<and> DeviceClass w_ok = Some ''iPhone'' \<and> BuildVersion w_ok = Some ''20G75''
   \<and> eligible_spec (product_version w_ok) ''20G75''
   \<and> cli w_ok = resolve_and_restore w_ok \<and> GetApps \<in> set (fst (cli w_ok))
   \<and> unsupported (Version [16, 7]) ''20H17''"
proof -
  have u: "DeviceClass w_unsupported = Some ''iPhone''"
    "BuildVersion w_unsupported = Some ''21A340''"
    "\<not> eligible_spec (product_version w_unsupported) ''21A340''"
    by (simp_all add: w_unsupported_def w_ok_def eligible_spec_def version_defs)
  have k: "DeviceClass w_ok = Some ''iPhone''" "BuildVersion w_ok = Some ''20G75''"
    "eligible_spec (product_version w_ok) ''20G75''"
    by (simp_all add: w_ok_def eligible_spec_def version_defs)
  have s: "''iPhone'' \<noteq> []" "''21A340'' \<noteq> []" "''20G75'' \<noteq> []" "''20H17'' \<noteq> ''20H18''"
    by simp_all
  show ?thesis
    using u k s
      eligibility_gate [of "Version [17, 0, 1]" "''21A340''" w_unsupported "''iPhone''"]
      eligibility_gate [of "Version [16, 6]" "''20G75''" w_ok "''iPhone''"]
      eligibility_gate [of "Version [16, 7]" "''20H17''" w_ok "''iPhone''"]
    by blast
qed

section \<open>Exit codes\<close>

text \<open>
  C5. On the device that reports version 17.0.1, \<open>cli\<close> prints the message of an
  unsupported version and returns, and \<open>main\<close> ends the process with exit code 0.
\<close>

theorem unsupported_version_exit_code:
  "main w_unsupported =
     ([Secho (UnsupportedVersion ''iOS '' (Version [17, 0, 1]) ''21A340''),
       Secho SupportedRange], 0)"
  by (simp add: main_def cli_def w_unsupported_def w_ok_def unsupported_def version_defs
      os_name_of_def os_names_def)

section \<open>The restore and its outcome\<close>

lemma fst_after [simp]: "fst (after evs r) = evs @ fst r"
  and snd_after [simp]: "snd (after evs r) = snd r"
  by (simp_all add: after_def)

lemma after_after: "after xs (after ys r) = after (xs @ ys) r"
  by (simp add: after_def)

lemma ask_app_quiet: "quiet (fst (ask_app w))"
  by (simp add: ask_app_def quiet_def split: option.splits)

lemma quiet_ask: "Restart \<notin> set (fst (ask_app w))" "PerformRestore b r \<notin> set (fst (ask_app w))"
  using ask_app_quiet[of w] by (auto simp: quiet_def)

lemma cli_submit:
  assumes "PerformRestore back rb \<in> set (fst (cli w))"
  shows "rb = False \<and> (\<exists>pre. cli w = after pre (submit w back) \<and> quiet pre)"
proof -
  from assms obtain c b where cb: "DeviceClass w = Some c" "BuildVersion w = Some b" "c \<noteq> []" "b \<noteq> []"
     "\<not> unsupported (product_version w) b" and r: "cli w = resolve_and_restore w"
    by (auto simp: cli_def no_device_info_def split: option.splits if_splits)
  from assms r have m: "PerformRestore back rb \<in> set (fst (resolve_and_restore w))" by simp
  then obtain app uuid p where res: "resolve_app (snd (ask_app w)) (apps_json w) = Inr (app, uuid, p)"
    by (auto simp: resolve_and_restore_def quiet_ask split: sum.splits resolve_error.splits)
  with m have f: "PerformRestore back rb \<in> set (fst (fetch_and_restore w app uuid))"
    by (auto simp: resolve_and_restore_def quiet_ask)
  then obtain h where dl: "download w = Inr h"
    by (auto simp: fetch_and_restore_def split: sum.splits)
  with f have s: "PerformRestore back rb \<in> set (fst (submit w (build_backup h app uuid)))"
    by (auto simp: fetch_and_restore_def)
  have "\<And>bk. PerformRestore back rb \<in> set (fst (submit w bk)) \<Longrightarrow> back = bk \<and> rb = False"
    by (auto simp: submit_def reboot_def split: restore_outcome.splits option.splits)
  with s have eq: "back = build_backup h app uuid" "rb = False" by auto
  have "cli w = after (fst (ask_app w) @ [GetApps, HttpGet, Secho (Replacing app uuid)]) (submit w back)"
    by (simp add: r resolve_and_restore_def res fetch_and_restore_def dl eq after_after)
  moreover have "quiet (fst (ask_app w) @ [GetApps, HttpGet, Secho (Replacing app uuid)])"
    using ask_app_quiet[of w] by (simp add: quiet_def)
  ultimately show ?thesis using eq by blast
qed

lemma submit_FindMy:
  "classify (restore_error w) = FindMyBlocked \<Longrightarrow>
   submit w back = ([PerformRestore back False, Secho FindMyMustBeDisabled, Secho DisableFindMyAndRetry], SysExit 1)"
  by (simp add: submit_def after_def)

lemma submit_Fatal:
  "classify (restore_error w) = FatalOutcome e \<Longrightarrow> submit w back = ([PerformRestore back False], Raise e)"
  by (simp add: submit_def after_def)

lemma submit_Expected:
  "classify (restore_error w) = ExpectedOutcome \<Longrightarrow> submit w back = after [PerformRestore back False] (reboot w)"
  by (simp add: submit_def)

lemma main_of_cli:
  "startup_error w = None \<Longrightarrow> snd (main w) = (case snd (cli w) of Return \<Rightarrow> 0 | SysExit c \<Rightarrow> c | Raise e \<Rightarrow> snd (handle_exception e))"
  by (cases "cli w") (simp add: main_def split: control.splits)

lemma handle_exception_nonzero: "snd (handle_exception e) \<noteq> 0"
  by (simp add: handle_exception_def)

lemma main_submit:
  assumes "PerformRestore back rb \<in> set (fst (main w))"
  shows "startup_error w = None \<and> PerformRestore back rb \<in> set (fst (cli w))"
proof (cases "startup_error w")
  case None
  with assms show ?thesis
    by (cases "cli w") (auto simp: main_def handle_exception_def split: control.splits if_splits)
next
  case (Some e)
  with assms show ?thesis by (auto simp: main_def handle_exception_def split: if_splits)
qed

lemma main_events:
  "startup_error w = None \<Longrightarrow> Restart \<in> set (fst (main w)) \<longleftrightarrow> Restart \<in> set (fst (cli w))"
  by (cases "cli w") (auto simp: main_def handle_exception_def split: control.splits if_splits)

lemma resolve_tips: "resolve_app ''Tips'' tips_registry =
  Inr (''Tips.app'', ''ABCD-1234'', PurePath ''/'' [''private'', ''var'', ''containers'', ''Bundle'', ''Application'', ''ABCD-1234'', ''Tips.app''])"
  by (simp add: tips_registry_def resolve_app_def normalize_app_def endswith_def suffix_to_prefix Path_def splitroot_def name_def str_lower_def lower_char_def parents_def parent_def bundle_root_def)

lemma cli_tips:
  assumes "DeviceClass w = Some ''iPhone''" "BuildVersion w = Some ''20G75''"
    "product_version w = Version [16, 6]" "app_option w = Some ''Tips''"
    "apps_json w = tips_registry" "download w = Inr [1, 2, 3]"
  shows "cli w =
     after [GetApps, HttpGet, Secho (Replacing ''Tips.app'' ''ABCD-1234'')] (submit w tips_backup)"
  using assms
  by (simp add: cli_def unsupported_def version_defs resolve_and_restore_def ask_app_def
      resolve_tips fetch_and_restore_def after_def tips_backup_def)

lemma submits_tips:
  assumes "DeviceClass w = Some ''iPhone''" "BuildVersion w = Some ''20G75''"
    "product_version w = Version [16, 6]" "app_option w = Some ''Tips''"
    "apps_json w = tips_registry" "download w = Inr [1, 2, 3]" "startup_error w = None"
  shows "PerformRestore tips_backup False \<in> set (fst (main w))"
proof -
  have "PerformRestore tips_backup False \<in> set (fst (cli w))"
    by (simp add: cli_tips [OF assms(1-6)] submit_def)
  then show ?thesis using assms(7)
    by (cases "cli w") (auto simp: main_def split: control.splits)
qed

text \<open>
  C3, amended. When the restore was submitted and raised an error \<open>e\<close>: if \<open>e\<close> belongs to
  the restore family and its message contains \<open>Find My\<close>, it is classified \<open>FindMyBlocked\<close>,
  \<open>cli\<close> exits with code 1, the restore was submitted once and the device is not restarted;
  if \<open>e\<close> belongs to the family and its message contains \<open>crash_on_purpose\<close> but not
  \<open>Find My\<close>, it is classified \<open>ExpectedOutcome\<close>, the device is restarted and, when the
  restart returns, the run ends with the two reminders and exit code 0; every other error,
  in particular every error outside the family, is \<open>FatalOutcome\<close>, leaves \<open>cli\<close> as the
  same exception, and the process exits with a code other than 0 without a restart.
\<close>

theorem restore_outcome_classification:
  assumes "PerformRestore bk False \<in> set (fst (main w))" and "restore_error w = Some e"
  shows
    "(is_PyMobileDevice3Exception e \<and> str_in ''Find My'' (message e) \<longrightarrow>
        classify (Some e) = FindMyBlocked \<and> snd (cli w) = SysExit 1
        \<and> Restart \<notin> set (fst (main w))
        \<and> count_list (fst (main w)) (PerformRestore bk False) = 1)
     \<and> (is_PyMobileDevice3Exception e \<and> \<not> str_in ''Find My'' (message e)
          \<and> str_in ''crash_on_purpose'' (message e) \<longrightarrow>
        classify (Some e) = ExpectedOutcome \<and> Restart \<in> set (fst (main w))
        \<and> (restart_error w = None \<longrightarrow>
             snd (cli w) = Return \<and> snd (main w) = 0
             \<and> suffix [Secho ReenableFindMy, Secho InstallPersistenceHelper] (fst (main w))))
     \<and> (\<not> is_PyMobileDevice3Exception e
          \<or> (\<not> str_in ''Find My'' (message e) \<and> \<not> str_in ''crash_on_purpose'' (message e)) \<longrightarrow>
        classify (Some e) = FatalOutcome e \<and> snd (cli w) = Raise e
        \<and> Restart \<notin> set (fst (main w)) \<and> snd (main w) \<noteq> 0)"
proof -
  from main_submit [OF assms(1)] have st: "startup_error w = None"
    and "PerformRestore bk False \<in> set (fst (cli w))" by auto
  from cli_submit [OF this(2)] obtain pre where
    c: "cli w = after pre (submit w bk)" and q: "quiet pre" by blast
  from q have q': "Restart \<notin> set pre" "count_list pre (PerformRestore bk False) = 0"
    by (auto simp: quiet_def)
  have m: "main w = (case cli w of (evs, Return) \<Rightarrow> (evs, 0) | (evs, SysExit code) \<Rightarrow> (evs, code)
             | (evs, Raise e) \<Rightarrow> (evs @ fst (handle_exception e), snd (handle_exception e)))"
    using st by (simp add: main_def)
  have 1: ?thesis if "classify (Some e) = FindMyBlocked"
    using that q' submit_FindMy [of w bk] assms(2)
    by (auto simp: m c after_def classify_def split: if_splits)
  have 2: ?thesis if "classify (Some e) = FatalOutcome e"
    using that q' submit_Fatal [of w e bk] assms(2) handle_exception_nonzero [of e]
    by (auto simp: m c after_def classify_def handle_exception_def split: if_splits)
  have 3: ?thesis if "classify (Some e) = ExpectedOutcome"
    using that q' submit_Expected [of w bk] assms(2)
    by (cases "restart_error w")
       (auto simp: m c after_def classify_def reboot_def handle_exception_def suffix_def split: if_splits)
  show ?thesis
    using 1 2 3 by (cases "classify (Some e)") (auto simp: classify_def split: if_splits)
qed

theorem restore_outcome_classification_witness:
  "PerformRestore tips_backup False \<in> set (fst (main w_ok))
   \<and> restore_error w_ok = Some (Exception PyMobileDevice3Exception ''crash_on_purpose'')
   \<and> classify (Some (Exception PyMobileDevice3Exception ''crash_on_purpose'')) = ExpectedOutcome
   \<and> Restart \<in> set (fst (main w_ok)) \<and> snd (main w_ok) = 0
   \<and> PerformRestore tips_backup False \<in> set (fst (main w_both_markers))
   \<and> classify (Some (Exception PyMobileDevice3Exception ''Find My crash_on_purpose'')) = FindMyBlocked
   \<and> snd (cli w_both_markers) = SysExit 1
   \<and> PerformRestore tips_backup False \<in> set (fst (main w_foreign))
   \<and> classify (Some (Exception OtherException ''crash_on_purpose'')) =
       FatalOutcome (Exception OtherException ''crash_on_purpose'')
   \<and> snd (cli w_foreign) = Raise (Exception OtherException ''crash_on_purpose'')"
proof -
  have s: "PerformRestore tips_backup False \<in> set (fst (main w_ok))"
    "PerformRestore tips_backup False \<in> set (fst (main w_both_markers))"
    "PerformRestore tips_backup False \<in> set (fst (main w_foreign))"
    by (rule submits_tips; simp add: w_ok_def w_both_markers_def w_foreign_def)+
  have e: "restore_error w_ok = Some (Exception PyMobileDevice3Exception ''crash_on_purpose'')"
    "restore_error w_both_markers =
       Some (Exception PyMobileDevice3Exception ''Find My crash_on_purpose'')"
    "restore_error w_foreign = Some (Exception OtherException ''crash_on_purpose'')"
    "restart_error w_ok = None"
    by (simp_all add: w_ok_def w_both_markers_def w_foreign_def)
  have m: "is_PyMobileDevice3Exception (Exception PyMobileDevice3Exception ''crash_on_purpose'')"
    "\<not> str_in ''Find My'' (message (Exception PyMobileDevice3Exception ''crash_on_purpose''))"
    "str_in ''crash_on_purpose'' (message (Exception PyMobileDevice3Exception ''crash_on_purpose''))"
    "is_PyMobileDevice3Exception (Exception PyMobileDevice3Exception ''Find My crash_on_purpose'')"
    "str_in ''Find My'' (message (Exception PyMobileDevice3Exception ''Find My crash_on_purpose''))"
    "\<not> is_PyMobileDevice3Exception (Exception OtherException ''crash_on_purpose'')"
    by (simp_all add: is_PyMobileDevice3Exception_def)
  show ?thesis
    using s e m restore_outcome_classification [OF s(1) e(1)]
      restore_outcome_classification [OF s(2) e(2)]
      restore_outcome_classification [OF s(3) e(3)]
    by blast
qed

text \<open>
  C3 as stated fails: an exception outside the restore family whose message is
  \<open>crash_on_purpose\<close> is not classified \<open>ExpectedOutcome\<close> but leaves \<open>cli\<close>, and an error of
  the family whose message contains both markers is not classified \<open>ExpectedOutcome\<close>.
\<close>

theorem classification_counterexample:
  "restore_error w_foreign = Some (Exception OtherException ''crash_on_purpose'')
   \<and> str_in ''crash_on_purpose'' ''crash_on_purpose''
   \<and> classify (restore_error w_foreign) \<noteq> ExpectedOutcome
   \<and> cli w_foreign =
       ([GetApps, HttpGet, Secho (Replacing ''Tips.app'' ''ABCD-1234''),
         PerformRestore tips_backup False],
        Raise (Exception OtherException ''crash_on_purpose''))
   \<and> str_in ''crash_on_purpose'' ''Find My crash_on_purpose''
   \<and> classify (restore_error w_both_markers) \<noteq> ExpectedOutcome"
  by (simp add: cli_tips w_foreign_def w_both_markers_def w_ok_def submit_def classify_def
      is_PyMobileDevice3Exception_def after_def)

section \<open>Order of the two markers\<close>

text \<open>
  C9. When the restore was submitted and raised an error of the restore family whose
  message contains both \<open>Find My\<close> and \<open>crash_on_purpose\<close>, the error is classified
  \<open>FindMyBlocked\<close> and never \<open>ExpectedOutcome\<close>: \<open>cli\<close> exits with code 1, which is the
  exit code of the process, and the device is not restarted.
\<close>

theorem find_my_takes_precedence:
  assumes "PerformRestore bk False \<in> set (fst (main w))" and "restore_error w = Some e"
    and "is_PyMobileDevice3Exception e"
    and "str_in ''Find My'' (message e)" and "str_in ''crash_on_purpose'' (message e)"
  shows "classify (Some e) = FindMyBlocked \<and> classify (Some e) \<noteq> ExpectedOutcome
    \<and> snd (cli w) = SysExit 1 \<and> snd (main w) = 1 \<and> Restart \<notin> set (fst (main w))"
proof -
  have f: "classify (restore_error w) = FindMyBlocked"
    using assms by (simp add: classify_def)
  from main_submit [OF assms(1)] have st: "startup_error w = None"
    and "PerformRestore bk False \<in> set (fst (cli w))" by auto
  from cli_submit [OF this(2)] obtain pre where
    c: "cli w = after pre (submit w bk)" and q: "quiet pre" by blast
  have "snd (cli w) = SysExit 1" "Restart \<notin> set (fst (cli w))"
    using q by (simp_all add: c submit_FindMy [OF f] quiet_def)
  then show ?thesis
    using f assms(2) st main_of_cli [OF st] main_events [OF st] by simp
qed

theorem find_my_takes_precedence_witness:
  "PerformRestore tips_backup False \<in> set (fst (main w_both_markers))
   \<and> str_in ''Find My'' ''Find My crash_on_purpose''
   \<and> str_in ''crash_on_purpose'' ''Find My crash_on_purpose''
   \<and> snd (cli w_both_markers) = SysExit 1 \<and> snd (main w_both_markers) = 1
   \<and> Restart \<notin> set (fst (main w_both_markers))"
  using find_my_takes_precedence [of tips_backup w_both_markers
      "Exception PyMobileDevice3Exception ''Find My crash_on_purpose''"]
    submits_tips [of w_both_markers]
  by (simp add: w_both_markers_def w_ok_def is_PyMobileDevice3Exception_def)

section \<open>Exceptions outside the restore family\<close>

text \<open>
  C10. When the restore was submitted and raised an exception that is not of the restore
  family, whatever its message, the exception leaves \<open>cli\<close> unchanged, it is fatal (the
  handler of \<open>main\<close> sets the exit code, which is not 0) and the device is not restarted.
\<close>

theorem foreign_exception_propagates:
  assumes "PerformRestore bk False \<in> set (fst (main w))" and "restore_error w = Some e"
    and "\<not> is_PyMobileDevice3Exception e"
  shows "classify (Some e) = FatalOutcome e \<and> snd (cli w) = Raise e
    \<and> Restart \<notin> set (fst (main w)) \<and> snd (main w) = snd (handle_exception e)
    \<and> snd (main w) \<noteq> 0"
proof -
  have f: "classify (restore_error w) = FatalOutcome e"
    using assms by (simp add: classify_def)
  from main_submit [OF assms(1)] have st: "startup_error w = None"
    and "PerformRestore bk False \<in> set (fst (cli w))" by auto
  from cli_submit [OF this(2)] obtain pre where
    c: "cli w = after pre (submit w bk)" and q: "quiet pre" by blast
  have "snd (cli w) = Raise e" "Restart \<notin> set (fst (cli w))"
    using q by (simp_all add: c submit_Fatal [OF f] quiet_def)
  then show ?thesis
    using f assms(2) st main_of_cli [OF st] main_events [OF st] handle_exception_nonzero [of e]
    by simp
qed

theorem foreign_exception_propagates_witness:
  "PerformRestore tips_backup False \<in> set (fst (main w_foreign_both))
   \<and> str_in ''Find My'' ''Find My crash_on_purpose''
   \<and> str_in ''crash_on_purpose'' ''Find My crash_on_purpose''
   \<and> snd (cli w_foreign_both) = Raise (Exception OtherException ''Find My crash_on_purpose'')
   \<and> snd (main w_foreign_both) = 1
   \<and> Restart \<notin> set (fst (main w_foreign_both))"
  using foreign_exception_propagates [of tips_backup w_foreign_both
      "Exception OtherException ''Find My crash_on_purpose''"]
    submits_tips [of w_foreign_both]
  by (simp add: w_foreign_both_def w_ok_def is_PyMobileDevice3Exception_def handle_exception_def)

section \<open>The resolver\<close>

lemma matching_Nil [simp]: "matching app [] = []"
  by (simp add: matching_def map_filter_simps)

lemma matching_Cons:
  "matching app (kv # rest) =
     (case carried_path kv of
        None \<Rightarrow> matching app rest
      | Some p \<Rightarrow> if matches app p then p # matching app rest else matching app rest)"
  by (simp add: matching_def map_filter_simps split: option.splits)

lemma matching_cong:
  assumes "str_lower a = str_lower b"
  shows "matching a reg = matching b reg"
proof -
  have "matches a = matches b"
    using assms by (simp add: matches_def fun_eq_iff)
  then show ?thesis by (simp add: matching_def)
qed

lemma scan_apps_last:
  "scan_apps reg (ap, app) =
     (if matching app reg = [] then (ap, app)
      else (Some (last (matching app reg)), name (last (matching app reg))))"
proof (induction reg arbitrary: ap app)
  case Nil
  show ?case by simp
next
  case (Cons kv rest)
  obtain key val where kv: "kv = (key, val)" by (cases kv)
  show ?case
  proof (cases "carried_path kv")
    case None
    then have "scan_apps (kv # rest) (ap, app) = scan_apps rest (ap, app)"
      by (auto simp: kv carried_path_def split: app_value.splits option.splits)
    with None Cons.IH [of ap app] show ?thesis by (simp add: matching_Cons)
  next
    case (Some p)
    then obtain d s where d: "val = Dict d" "map_of d ''Path'' = Some s" "p = Path s"
      by (auto simp: kv carried_path_def split: app_value.splits option.splits)
    show ?thesis
    proof (cases "matches app p")
      case True
      then have eq: "matching (name p) rest = matching app rest"
        by (intro matching_cong) (simp add: matches_def)
      have "scan_apps (kv # rest) (ap, app) = scan_apps rest (Some p, name p)"
        using True d by (simp add: kv matches_def Let_def)
      with Cons.IH [of "Some p" "name p"] Some True show ?thesis
        by (simp add: matching_Cons eq)
    next
      case False
      then have "scan_apps (kv # rest) (ap, app) = scan_apps rest (ap, app)"
        using d by (simp add: kv matches_def Let_def)
      with Cons.IH [of ap app] Some False show ?thesis by (simp add: matching_Cons)
    qed
  qed
qed

lemma in_parents:
  "q \<in> set (parents p) \<longleftrightarrow> anchor q = anchor p \<and> strict_prefix (tail q) (tail p)"
proof
  assume "q \<in> set (parents p)"
  then obtain k where k: "k < length (tail p)" "q = PurePath (anchor p) (take k (tail p))"
    by (auto simp: parents_def)
  then have "prefix (tail q) (tail p)" "tail q \<noteq> tail p"
    by (auto simp: take_is_prefix dest: arg_cong [where f = length])
  with k show "anchor q = anchor p \<and> strict_prefix (tail q) (tail p)"
    by (simp add: strict_prefix_def)
next
  assume a: "anchor q = anchor p \<and> strict_prefix (tail q) (tail p)"
  then obtain zs where zs: "tail p = tail q @ zs" "zs \<noteq> []"
    by (auto simp: strict_prefix_def prefix_def)
  then have "length (tail q) < length (tail p)" "take (length (tail q)) (tail p) = tail q"
    by simp_all
  with a have "q = PurePath (anchor p) (take (length (tail q)) (tail p))"
    by (cases q) simp
  with \<open>length (tail q) < length (tail p)\<close> show "q \<in> set (parents p)"
    unfolding parents_def by (auto simp: image_iff intro!: bexI [of _ "length (tail q)"])
qed

lemma bundle_root_eq:
  "bundle_root = PurePath ''/'' [''private'', ''var'', ''containers'', ''Bundle'', ''Application'']"
  by (simp add: bundle_root_def Path_def splitroot_def)

lemma bundle_root_in_parents: "bundle_root \<in> set (parents p) \<longleftrightarrow> under_bundle_root p"
  by (auto simp: in_parents bundle_root_eq under_bundle_root_def)

lemma resolve_app_last:
  "resolve_app app0 reg =
     (if matching (normalize_app app0) reg = [] then Inl (AppNotFound (normalize_app app0))
      else if under_bundle_root (last (matching (normalize_app app0) reg))
      then Inr (name (last (matching (normalize_app app0) reg)),
                name (parent (last (matching (normalize_app app0) reg))),
                last (matching (normalize_app app0) reg))
      else Inl (AppNotRemovable (name (last (matching (normalize_app app0) reg)))))"
  by (simp add: resolve_app_def scan_apps_last bundle_root_in_parents)

lemma last_matching:
  assumes "matching app reg \<noteq> []"
  shows "matches app (last (matching app reg))"
    and "last (matching app reg) \<in> set (List.map_filter carried_path reg)"
proof -
  from assms have "last (matching app reg) \<in> set (matching app reg)" by simp
  then show "matches app (last (matching app reg))"
    and "last (matching app reg) \<in> set (List.map_filter carried_path reg)"
    by (simp_all add: matching_def)
qed

lemma resolve_app_Inr:
  assumes "resolve_app app0 reg = Inr (app, uuid, p)"
  shows "matching (normalize_app app0) reg \<noteq> []" and "p = last (matching (normalize_app app0) reg)"
    and "under_bundle_root p" and "app = name p" and "uuid = name (parent p)"
  using assms by (auto simp: resolve_app_last split: if_splits)

lemma two_tips_matching:
  "matching (normalize_app ''Tips'') two_tips_registry =
     [PurePath ''/'' [''private'', ''var'', ''containers'', ''Bundle'', ''Application'', ''AAAA-1111'', ''Tips.app''],
      PurePath ''/'' [''private'', ''var'', ''containers'', ''Bundle'', ''Application'', ''BBBB-2222'', ''tips.app'']]"
  by (simp add: two_tips_registry_def matching_Cons carried_path_def matches_def normalize_app_def
      endswith_def suffix_to_prefix Path_def splitroot_def name_def str_lower_def lower_char_def)

text \<open>
  C4, amended. The resolver scans the entries that carry a path and selects the last one
  whose final component is the normalised name up to case; when no entry matches it fails
  with \<open>AppNotFound\<close>, and on an eligible device \<open>cli\<close> then prints the two messages and
  returns.
\<close>

theorem resolver_selects_last_match:
  assumes "ms = matching (normalize_app app0) reg"
  shows "(ms = [] \<longrightarrow> resolve_app app0 reg = Inl (AppNotFound (normalize_app app0)))
    \<and> (ms \<noteq> [] \<longrightarrow>
         scan_apps reg (None, normalize_app app0) = (Some (last ms), name (last ms))
         \<and> matches (normalize_app app0) (last ms)
         \<and> resolve_app app0 reg \<noteq> Inl (AppNotFound (normalize_app app0))
         \<and> (\<forall>app uuid p. resolve_app app0 reg = Inr (app, uuid, p) \<longrightarrow> p = last ms))
    \<and> (ms = [] \<and> app0 = snd (ask_app w) \<and> reg = apps_json w
         \<and> DeviceClass w = Some c \<and> c \<noteq> [] \<and> BuildVersion w = Some b \<and> b \<noteq> []
         \<and> \<not> unsupported (product_version w) b \<longrightarrow>
       cli w =
         (fst (ask_app w) @
            [GetApps, Secho (AppNotFoundMsg (normalize_app app0)),
             Secho (CheckAppName (normalize_app app0))],
          Return))"
  using assms last_matching(1) [of "normalize_app app0" reg]
  by (auto simp: resolve_app_last scan_apps_last cli_def resolve_and_restore_def after_def)

theorem resolver_selects_last_match_witness:
  "matching (normalize_app ''Tips'') two_tips_registry \<noteq> []
   \<and> scan_apps two_tips_registry (None, normalize_app ''Tips'') =
       (Some (PurePath ''/'' [''private'', ''var'', ''containers'', ''Bundle'', ''Application'', ''BBBB-2222'', ''tips.app'']),
        ''tips.app'')
   \<and> matching (normalize_app ''Books'') tips_registry = []
   \<and> resolve_app ''Books'' tips_registry = Inl (AppNotFound ''Books.app'')
   \<and> cli (w_ok\<lparr>app_option := Some ''Books''\<rparr>) =
       ([GetApps, Secho (AppNotFoundMsg ''Books.app''), Secho (CheckAppName ''Books.app'')], Return)"
  using resolver_selects_last_match [of "matching (normalize_app ''Tips'') two_tips_registry" "''Tips''" two_tips_registry]
    resolver_selects_last_match [of "[]" "''Books''" tips_registry "w_ok\<lparr>app_option := Some ''Books''\<rparr>" "''iPhone''" "''20G75''"]
  by (simp add: two_tips_matching name_def)
     (simp add: tips_registry_def matching_Cons carried_path_def matches_def normalize_app_def
      endswith_def suffix_to_prefix Path_def splitroot_def name_def str_lower_def lower_char_def
      w_ok_def ask_app_def unsupported_def version_defs)

text \<open>
  C4 as stated fails: with two entries called Tips the resolver returns the second one,
  not the first.
\<close>

theorem first_match_counterexample:
  "matching (normalize_app ''Tips'') two_tips_registry =
     [PurePath ''/'' [''private'', ''var'', ''containers'', ''Bundle'', ''Application'', ''AAAA-1111'', ''Tips.app''],
      PurePath ''/'' [''private'', ''var'', ''containers'', ''Bundle'', ''Application'', ''BBBB-2222'', ''tips.app'']]
   \<and> resolve_app ''Tips'' two_tips_registry =
       Inr (''tips.app'', ''BBBB-2222'',
            PurePath ''/'' [''private'', ''var'', ''containers'', ''Bundle'', ''Application'', ''BBBB-2222'', ''tips.app''])
   \<and> resolve_app ''Tips'' two_tips_registry \<noteq>
       Inr (''Tips.app'', ''AAAA-1111'',
            PurePath ''/'' [''private'', ''var'', ''containers'', ''Bundle'', ''Application'', ''AAAA-1111'', ''Tips.app''])"
  by (simp add: two_tips_matching resolve_app_last under_bundle_root_def name_def parent_def)

text \<open>
  C6. When the path the scan matched is not below \<open>/private/var/containers/Bundle/Application\<close>
  (the root is not among its parents), the resolver fails with \<open>AppNotRemovable\<close> although
  the name matches; when the resolver succeeds, the path it returns is below that root.
\<close>

theorem non_removable_rejected:
  "(scan_apps reg (None, normalize_app app0) = (Some p, app) \<and> \<not> under_bundle_root p \<longrightarrow>
      matches (normalize_app app0) p \<and> resolve_app app0 reg = Inl (AppNotRemovable app))
   \<and> (resolve_app app0 reg = Inr (a, u, q) \<longrightarrow>
        under_bundle_root q \<and> scan_apps reg (None, normalize_app app0) = (Some q, a))
   \<and> (bundle_root \<in> set (parents p) \<longleftrightarrow> under_bundle_root p)"
  using last_matching(1) [of "normalize_app app0" reg]
  by (auto simp: resolve_app_def scan_apps_last bundle_root_in_parents split: if_splits)

theorem non_removable_rejected_witness:
  "scan_apps builtin_registry (None, normalize_app ''mobilesafari'') =
     (Some (PurePath ''/'' [''Applications'', ''MobileSafari.app'']), ''MobileSafari.app'')
   \<and> \<not> under_bundle_root (PurePath ''/'' [''Applications'', ''MobileSafari.app''])
   \<and> matches (normalize_app ''mobilesafari'') (PurePath ''/'' [''Applications'', ''MobileSafari.app''])
   \<and> resolve_app ''mobilesafari'' builtin_registry = Inl (AppNotRemovable ''MobileSafari.app'')
   \<and> resolve_app ''Tips'' tips_registry =
       Inr (''Tips.app'', ''ABCD-1234'',
            PurePath ''/'' [''private'', ''var'', ''containers'', ''Bundle'', ''Application'',
              ''ABCD-1234'', ''Tips.app''])
   \<and> under_bundle_root
       (PurePath ''/'' [''private'', ''var'', ''containers'', ''Bundle'', ''Application'',
          ''ABCD-1234'', ''Tips.app''])"
proof -
  have s: "scan_apps builtin_registry (None, normalize_app ''mobilesafari'') =
     (Some (PurePath ''/'' [''Applications'', ''MobileSafari.app'']), ''MobileSafari.app'')"
    by (simp add: builtin_registry_def normalize_app_def endswith_def suffix_to_prefix Path_def
        splitroot_def name_def str_lower_def lower_char_def)
  have n: "\<not> under_bundle_root (PurePath ''/'' [''Applications'', ''MobileSafari.app''])"
    by (simp add: under_bundle_root_def)
  show ?thesis
    using s n resolve_tips
      non_removable_rejected [of builtin_registry "''mobilesafari''"
        "PurePath ''/'' [''Applications'', ''MobileSafari.app'']" "''MobileSafari.app''"
        "''Tips.app''" "''ABCD-1234''"
        "PurePath ''/'' [''private'', ''var'', ''containers'', ''Bundle'', ''Application'',
           ''ABCD-1234'', ''Tips.app'']"]
      non_removable_rejected [of tips_registry "''Tips''"
        "PurePath ''/'' [''Applications'', ''MobileSafari.app'']" "''MobileSafari.app''"
        "''Tips.app''" "''ABCD-1234''"
        "PurePath ''/'' [''private'', ''var'', ''containers'', ''Bundle'', ''Application'',
           ''ABCD-1234'', ''Tips.app'']"]
    by blast
qed

lemma last_butlast_nth:
  assumes "2 \<le> length xs"
  shows "last (butlast xs) = xs ! (length xs - 2)"
proof -
  from assms have ne: "butlast xs \<noteq> []"
    by (cases xs) (auto split: if_splits)
  have i: "length (butlast xs) - 1 = length xs - 2" by simp
  have "last (butlast xs) = butlast xs ! (length (butlast xs) - 1)"
    using ne by (rule last_conv_nth)
  also have "\<dots> = xs ! (length xs - 2)"
    unfolding i using assms by (simp add: nth_butlast)
  finally show ?thesis .
qed

text \<open>
  C7. The suffix \<open>.app\<close> is appended exactly when the name does not end with it. On
  success the bundle name is the last component of a path of the registry, equal to the
  normalised name up to case, and the UUID is the name of the parent of that path, its
  last component but one. The name Tips resolves to \<open>Tips.app\<close> and \<open>ABCD-1234\<close>.
\<close>

theorem resolver_result:
  "(endswith app0 ''.app'' \<longrightarrow> normalize_app app0 = app0)
   \<and> (\<not> endswith app0 ''.app'' \<longrightarrow> normalize_app app0 = app0 @ ''.app'')
   \<and> endswith (normalize_app app0) ''.app''
   \<and> (resolve_app app0 reg = Inr (app, uuid, p) \<longrightarrow>
        p \<in> set (List.map_filter carried_path reg)
        \<and> app = name p \<and> app = last (tail p)
        \<and> str_lower app = str_lower (normalize_app app0)
        \<and> uuid = name (parent p)
        \<and> 2 \<le> length (tail p) \<and> uuid = tail p ! (length (tail p) - 2))
   \<and> resolve_app ''Tips'' [(''com.apple.tips'', Dict [(''Path'', tips_path)])] =
       Inr (''Tips.app'', ''ABCD-1234'', Path tips_path)"
proof -
  have n: "(endswith app0 ''.app'' \<longrightarrow> normalize_app app0 = app0)
     \<and> (\<not> endswith app0 ''.app'' \<longrightarrow> normalize_app app0 = app0 @ ''.app'')
     \<and> endswith (normalize_app app0) ''.app''"
    by (simp add: normalize_app_def endswith_def suffix_def)
  have r: "p \<in> set (List.map_filter carried_path reg)
        \<and> app = name p \<and> app = last (tail p)
        \<and> str_lower app = str_lower (normalize_app app0)
        \<and> uuid = name (parent p)
        \<and> 2 \<le> length (tail p) \<and> uuid = tail p ! (length (tail p) - 2)"
    if a: "resolve_app app0 reg = Inr (app, uuid, p)"
  proof -
    note f = resolve_app_Inr [OF a]
    from f(3) have "length [''private'', ''var'', ''containers'', ''Bundle'', ''Application'']
        < length (tail p)"
      unfolding under_bundle_root_def by (blast intro: prefix_length_less)
    then have len: "2 \<le> length (tail p)" by simp
    then have ne: "tail p \<noteq> []" "butlast (tail p) \<noteq> []"
      by (cases "tail p"; auto split: if_splits)+
    have u: "uuid = tail p ! (length (tail p) - 2)"
      using len f(5) ne by (simp add: name_def parent_def last_butlast_nth)
    from f(1,2) last_matching [of "normalize_app app0" reg]
    have "matches (normalize_app app0) p" "p \<in> set (List.map_filter carried_path reg)" by simp_all
    with f(4,5) u len ne show ?thesis by (simp add: matches_def name_def)
  qed
  have e: "resolve_app ''Tips'' [(''com.apple.tips'', Dict [(''Path'', tips_path)])] =
       Inr (''Tips.app'', ''ABCD-1234'', Path tips_path)"
    using resolve_tips by (simp add: tips_registry_def tips_path_def Path_def splitroot_def)
  from n r e show ?thesis by blast
qed

theorem resolver_result_witness:
  "\<not> endswith ''Tips'' ''.app'' \<and> normalize_app ''Tips'' = ''Tips'' @ ''.app''
   \<and> endswith ''Tips.app'' ''.app'' \<and> normalize_app ''Tips.app'' = ''Tips.app''
   \<and> resolve_app ''Tips'' tips_registry =
       Inr (''Tips.app'', ''ABCD-1234'',
            PurePath ''/'' [''private'', ''var'', ''containers'', ''Bundle'', ''Application'',
              ''ABCD-1234'', ''Tips.app''])
   \<and> ''ABCD-1234'' =
       name (parent (PurePath ''/'' [''private'', ''var'', ''containers'', ''Bundle'',
         ''Application'', ''ABCD-1234'', ''Tips.app'']))
   \<and> resolve_app ''Tips'' [(''com.apple.tips'', Dict [(''Path'', tips_path)])] =
       Inr (''Tips.app'', ''ABCD-1234'', Path tips_path)"
proof -
  have a: "\<not> endswith ''Tips'' ''.app''" "endswith ''Tips.app'' ''.app''"
    by (simp_all add: endswith_def suffix_to_prefix)
  show ?thesis
    using a resolve_tips
      resolver_result [of "''Tips''" tips_registry "''Tips.app''" "''ABCD-1234''"
        "PurePath ''/'' [''private'', ''var'', ''containers'', ''Bundle'', ''Application'',
           ''ABCD-1234'', ''Tips.app'']"]
      resolver_result [of "''Tips.app''" tips_registry "''Tips.app''" "''ABCD-1234''"
        "PurePath ''/'' [''private'', ''var'', ''containers'', ''Bundle'', ''Application'',
           ''ABCD-1234'', ''Tips.app'']"]
    by blast
qed

section \<open>The manifest\<close>

lemma traversal_8: "traversal 8 = ''SysContainerDomain-../../../../../../../../''"
  by (simp add: traversal_def numeral_eq_Suc)







lemma below_8: "i < 8 \<Longrightarrow> i = 0 \<or> i = 1 \<or> i = 2 \<or> i = 3 \<or> i = 4 \<or> i = 5 \<or> i = 6 \<or> i = (7::nat)"
  by arith

lemma targets:
  "map target (files (build_backup payload app uuid)) =
     [''RootDomain'', ''RootDomain/Library'', ''RootDomain/Library/Preferences'',
      ''RootDomain/Library/Preferences/temp'',
      app_domain uuid app, app_domain uuid app @ ''/'' @ split_first CHR ''.'' app,
      traversal 8 @ ''var/.backup.i/var/root/Library/Preferences/temp'',
      traversal 8 @ ''crash_on_purpose'']"
  by (simp add: build_backup_def app_domain_def traversal_8 target_def)

lemma directories:
  "map is_directory (files (build_backup payload app uuid)) =
     [True, True, True, False, True, False, False, False]"
  by (simp add: build_backup_def is_directory_def)

text \<open>
  C8. In every manifest, a directory whose location is a prefix of the location of another
  entry comes strictly before that entry; the dependencies between the first four entries
  and between the fifth and the sixth are of this kind; and the last entry is the marker
  file.
\<close>

theorem manifest_order:
  assumes "fs = files (build_backup payload app uuid)"
  shows "(\<forall>i j. i < length fs \<and> j < length fs \<and> i \<noteq> j \<and> is_directory (fs ! i)
            \<and> prefix (target (fs ! i)) (target (fs ! j)) \<longrightarrow> i < j)
    \<and> prefix (target (fs ! 0)) (target (fs ! 1))
    \<and> prefix (target (fs ! 1)) (target (fs ! 2))
    \<and> prefix (target (fs ! 2)) (target (fs ! 3))
    \<and> prefix (target (fs ! 4)) (target (fs ! 5))
    \<and> last fs = ConcreteFile '''' (traversal 8 @ ''crash_on_purpose'') None None [] None"
proof -
  have len: "length fs = 8" by (simp add: assms build_backup_def)
  have tm: "map target fs =
     [''RootDomain'', ''RootDomain/Library'', ''RootDomain/Library/Preferences'',
      ''RootDomain/Library/Preferences/temp'',
      app_domain uuid app, app_domain uuid app @ ''/'' @ split_first CHR ''.'' app,
      traversal 8 @ ''var/.backup.i/var/root/Library/Preferences/temp'',
      traversal 8 @ ''crash_on_purpose'']"
    and dm: "map is_directory fs = [True, True, True, False, True, False, False, False]"
    by (simp_all add: assms targets directories)
  have t: "target (fs ! k) = map target fs ! k"
    and d: "is_directory (fs ! k) = map is_directory fs ! k" if "k < 8" for k
    using len that by simp_all
  have order: "i < j" if "i < 8" "j < 8" "i \<noteq> j" "is_directory (fs ! i)"
    "prefix (target (fs ! i)) (target (fs ! j))" for i j
  proof (rule ccontr)
    assume "\<not> i < j"
    with that(3) have ji: "j < i" by simp
    from that(4) have "map is_directory fs ! i" by (simp add: d [OF that(1)])
    then have "i = 0 \<or> i = 1 \<or> i = 2 \<or> i = 4"
      using below_8 [OF that(1)] by (auto simp: dm)
    with ji have c: "(i = 1 \<and> j = 0) \<or> (i = 2 \<and> (j = 0 \<or> j = 1))
        \<or> (i = 4 \<and> (j = 0 \<or> j = 1 \<or> j = 2 \<or> j = 3))"
      by arith
    from that(5) have "prefix (map target fs ! i) (map target fs ! j)"
      by (simp add: t [OF that(1)] t [OF that(2)])
    with c show False
      by (auto simp: tm app_domain_def traversal_8)
  qed
  have deps: "prefix (target (fs ! 0)) (target (fs ! 1))"
    "prefix (target (fs ! 1)) (target (fs ! 2))"
    "prefix (target (fs ! 2)) (target (fs ! 3))"
    "prefix (target (fs ! 4)) (target (fs ! 5))"
    by (simp_all add: t tm)
  have "last fs = ConcreteFile '''' (traversal 8 @ ''crash_on_purpose'') None None [] None"
    by (simp add: assms build_backup_def traversal_8)
  with order deps len show ?thesis by simp
qed

theorem manifest_order_witness:
  "files tips_backup = files (build_backup [1, 2, 3] ''Tips.app'' ''ABCD-1234'')
   \<and> length (files tips_backup) = 8
   \<and> is_directory (files tips_backup ! 4)
   \<and> prefix (target (files tips_backup ! 4)) (target (files tips_backup ! 5))
   \<and> last (files tips_backup) =
       ConcreteFile '''' (traversal 8 @ ''crash_on_purpose'') None None [] None"
proof -
  have e: "files tips_backup = files (build_backup [1, 2, 3] ''Tips.app'' ''ABCD-1234'')"
    by (simp add: tips_backup_def)
  have l: "length (files tips_backup) = 8" "is_directory (files tips_backup ! 4)"
    by (simp_all add: tips_backup_def build_backup_def is_directory_def)
  from manifest_order [OF e] e l show ?thesis by blast
qed

end
